theory Spec2Isabelle
  imports Complex_Main
begin

section \<open>JavaScript values\<close>

text \<open>
  The cells of a decoded sheet row are loosely typed (\<^verbatim>\<open>ExcelRow = { [key: string]: any }\<close>):
  absent, a string, a number, a boolean or a \<^verbatim>\<open>Date\<close> object.

  A finite number is modelled by its exact value; the infinities and NaN are kept apart.
  A double rounds after each operation and overflows to an infinity, and the model does
  neither, so the two agree exactly where every intermediate result is an integer below
  \<open>2 ^ 53\<close> in magnitude. Sums of amounts and the compliance rates below are exact
  in this sense only; no result below depends on them.

  A string is a list of code units, here restricted to the 8-bit characters of HOL.
  A \<^verbatim>\<open>Date\<close> object is its time value in milliseconds since the Unix epoch, \<open>None\<close> for
  an invalid date (time value NaN).
\<close>

datatype jsnum = Fin rat | Inf bool | NaN

datatype jsval =
    JUndefined
  | JNull
  | JBool bool
  | JNum jsnum
  | JStr string
  | JDate "int option"

fun truthy :: "jsval \<Rightarrow> bool" where
  "truthy JUndefined = False"
| "truthy JNull = False"
| "truthy (JBool b) = b"
| "truthy (JNum n) = (n \<noteq> NaN \<and> n \<noteq> Fin 0)"
| "truthy (JStr s) = (s \<noteq> [])"
| "truthy (JDate d) = True"

text \<open>The operator \<^verbatim>\<open>a || b\<close>.\<close>

definition js_or :: "jsval \<Rightarrow> jsval \<Rightarrow> jsval" where
  "js_or a b = (if truthy a then a else b)"

subsection \<open>Number arithmetic\<close>

fun js_neg :: "jsnum \<Rightarrow> jsnum" where
  "js_neg (Fin q) = Fin (- q)"
| "js_neg (Inf p) = Inf (\<not> p)"
| "js_neg NaN = NaN"

fun js_add :: "jsnum \<Rightarrow> jsnum \<Rightarrow> jsnum" where
  "js_add NaN b = NaN"
| "js_add a NaN = NaN"
| "js_add (Fin a) (Fin b) = Fin (a + b)"
| "js_add (Fin a) (Inf p) = Inf p"
| "js_add (Inf p) (Fin b) = Inf p"
| "js_add (Inf p) (Inf q) = (if p = q then Inf p else NaN)"

definition js_sub :: "jsnum \<Rightarrow> jsnum \<Rightarrow> jsnum" where
  "js_sub a b = js_add a (js_neg b)"

fun js_mul :: "jsnum \<Rightarrow> jsnum \<Rightarrow> jsnum" where
  "js_mul NaN b = NaN"
| "js_mul a NaN = NaN"
| "js_mul (Fin a) (Fin b) = Fin (a * b)"
| "js_mul (Fin a) (Inf p) = (if a = 0 then NaN else Inf (p = (0 < a)))"
| "js_mul (Inf p) (Fin b) = (if b = 0 then NaN else Inf (p = (0 < b)))"
| "js_mul (Inf p) (Inf q) = Inf (p = q)"

text \<open>\<^verbatim>\<open>Math.round\<close>: the nearest integer, a tie going up.\<close>

fun Math_round :: "jsnum \<Rightarrow> jsnum" where
  "Math_round (Fin q) = Fin (of_int \<lfloor>q + 1 / 2\<rfloor>)"
| "Math_round (Inf p) = Inf p"
| "Math_round NaN = NaN"

text \<open>
  \<^verbatim>\<open>new Date(n).getTime()\<close> for a number \<open>n\<close>: the time value clipped to the range of
  \<open>\<plusminus>8.64e15\<close> ms and truncated to an integer; \<open>None\<close> when it is NaN.
\<close>

fun newDate_num :: "jsnum \<Rightarrow> int option" where
  "newDate_num (Fin q) =
     (if \<bar>q\<bar> \<le> 8640000000000000 then Some (if 0 \<le> q then \<lfloor>q\<rfloor> else \<lceil>q\<rceil>) else None)"
| "newDate_num (Inf p) = None"
| "newDate_num NaN = None"

subsection \<open>Strings\<close>

text \<open>
  \<^verbatim>\<open>String.prototype.trim\<close> removes white space and line terminators from both ends;
  among the 8-bit code units these are TAB, LF, VT, FF, CR, SP and NBSP.
\<close>

definition is_ws :: "char \<Rightarrow> bool" where
  "is_ws c = (c \<in> set [CHR 0x09, CHR 0x0A, CHR 0x0B, CHR 0x0C, CHR 0x0D, CHR 0x20, CHR 0xA0])"

definition trim :: "string \<Rightarrow> string" where
  "trim s = rev (dropWhile is_ws (rev (dropWhile is_ws s)))"

definition is_digit :: "char \<Rightarrow> bool" where
  "is_digit c = (c \<in> set ''0123456789'')"

definition digit_val :: "char \<Rightarrow> int" where
  "digit_val c = int (of_char c) - 48"

text \<open>\<^verbatim>\<open>parseInt(s, 10)\<close> on a string of decimal digits.\<close>

definition parseInt10 :: "string \<Rightarrow> int" where
  "parseInt10 s = foldl (\<lambda>a c. 10 * a + digit_val c) 0 s"

subsection \<open>The runtime\<close>

text \<open>
  What the pass takes from the JavaScript runtime and its time zone rather than from the
  repository: the decimal rendering of numbers and dates, the parsing of numeric and date
  strings, and local calendar arithmetic. Every result below holds for every runtime.
\<close>

record js_runtime =
  numberToString :: "jsnum \<Rightarrow> string"
  dateToString :: "int option \<Rightarrow> string"
  stringToNumber :: "string \<Rightarrow> jsnum"
  parseFloat :: "string \<Rightarrow> jsnum"
  localDate :: "int \<Rightarrow> int \<Rightarrow> int \<Rightarrow> int option"
  parseDate :: "string \<Rightarrow> int option"
  startOfDay :: "int \<Rightarrow> int"
  getFullYear :: "int \<Rightarrow> int"
  getMonth :: "int \<Rightarrow> int"

text \<open>
  \<^item> \<open>numberToString\<close>: \<^verbatim>\<open>String(n)\<close> and \<^verbatim>\<open>n.toString()\<close> of a number;
  \<^item> \<open>dateToString\<close>: \<^verbatim>\<open>String(d)\<close> of a \<^verbatim>\<open>Date\<close> object;
  \<^item> \<open>stringToNumber\<close>: \<^verbatim>\<open>Number(s)\<close>;
  \<^item> \<open>parseFloat\<close>: \<^verbatim>\<open>parseFloat(s)\<close>;
  \<^item> \<open>localDate y m d\<close>: the time value of \<^verbatim>\<open>new Date(y, m, d)\<close>, \<open>None\<close> when NaN;
  \<^item> \<open>parseDate\<close>: the time value of \<^verbatim>\<open>new Date(s)\<close> for a string, \<open>None\<close> when NaN;
  \<^item> \<open>startOfDay t\<close>: the time value after \<^verbatim>\<open>setHours(0, 0, 0, 0)\<close> on a valid date;
  \<^item> \<open>getFullYear\<close>, \<open>getMonth\<close>: the local year and the local month (from 0).
\<close>

text \<open>The conversion \<^verbatim>\<open>String(v)\<close>.\<close>

fun js_String :: "js_runtime \<Rightarrow> jsval \<Rightarrow> string" where
  "js_String rt JUndefined = ''undefined''"
| "js_String rt JNull = ''null''"
| "js_String rt (JBool b) = (if b then ''true'' else ''false'')"
| "js_String rt (JNum n) = numberToString rt n"
| "js_String rt (JStr s) = s"
| "js_String rt (JDate d) = dateToString rt d"

section \<open>excelHelpers.ts\<close>

definition INTERNAL_CLIENT_CODES :: "string list" where
  "INTERNAL_CLIENT_CODES = [''C0008157'', ''C0001114'', ''C0001140'']"

subsection \<open>parseExcelDate\<close>

definition is_sep :: "char \<Rightarrow> bool" where
  "is_sep c = (c = CHR ''/'' \<or> c = CHR ''-'')"

text \<open>
  The match of \<^verbatim>\<open>/^(\d{1,2})[\/\-](\d{1,2})[\/\-](\d{4})/\<close>: one or two digits, a
  separator, one or two digits, a separator, four digits; the three groups.
\<close>

definition match_latam :: "string \<Rightarrow> (string \<times> string \<times> string) option" where
  "match_latam s =
     (let g1 = takeWhile is_digit s; r1 = dropWhile is_digit s in
      if (length g1 = 1 \<or> length g1 = 2) \<and> r1 \<noteq> [] \<and> is_sep (hd r1) then
        (let g2 = takeWhile is_digit (tl r1); r2 = dropWhile is_digit (tl r1) in
         if (length g2 = 1 \<or> length g2 = 2) \<and> r2 \<noteq> [] \<and> is_sep (hd r2) then
           (let g3 = take 4 (tl r2) in
            if length g3 = 4 \<and> list_all is_digit g3 then Some (g1, g2, g3) else None)
         else None)
      else None)"

text \<open>
  The match of \<^verbatim>\<open>/^(\d{4})[\/\-](\d{1,2})[\/\-](\d{1,2})/\<close>: four digits, a separator,
  one or two digits, a separator, one or two digits (two when there are two).
\<close>

definition match_iso :: "string \<Rightarrow> (string \<times> string \<times> string) option" where
  "match_iso s =
     (let g1 = takeWhile is_digit s; r1 = dropWhile is_digit s in
      if length g1 = 4 \<and> r1 \<noteq> [] \<and> is_sep (hd r1) then
        (let g2 = takeWhile is_digit (tl r1); r2 = dropWhile is_digit (tl r1) in
         if (length g2 = 1 \<or> length g2 = 2) \<and> r2 \<noteq> [] \<and> is_sep (hd r2) then
           (let g3 = take 2 (takeWhile is_digit (tl r2)) in
            if g3 \<noteq> [] then Some (g1, g2, g3) else None)
         else None)
      else None)"

text \<open>The serial branch: \<^verbatim>\<open>new Date(Math.round((n - 25569) * 86400 * 1000))\<close>.\<close>

definition serialToDate :: "jsnum \<Rightarrow> int option" where
  "serialToDate n =
     newDate_num (Math_round (js_mul (js_mul (js_sub n (Fin 25569)) (Fin 86400)) (Fin 1000)))"

fun parseExcelDate :: "js_runtime \<Rightarrow> jsval \<Rightarrow> int option" where
  "parseExcelDate rt JNull = None"
| "parseExcelDate rt JUndefined = None"
| "parseExcelDate rt (JDate d) = d"
| "parseExcelDate rt (JNum n) = serialToDate n"
| "parseExcelDate rt (JStr s) =
     (if s = [] then None
      else
       (let trimmed = trim s in
        if trimmed = [] then None
        else if stringToNumber rt trimmed \<noteq> NaN \<and> CHR ''/'' \<notin> set trimmed
                \<and> CHR ''-'' \<notin> set trimmed \<and> CHR '':'' \<notin> set trimmed
        then serialToDate (stringToNumber rt trimmed)
        else
         (case match_latam trimmed of
            Some (d, m, y) \<Rightarrow> localDate rt (parseInt10 y) (parseInt10 m - 1) (parseInt10 d)
          | None \<Rightarrow>
             (case match_iso trimmed of
                Some (y, m, d) \<Rightarrow> localDate rt (parseInt10 y) (parseInt10 m - 1) (parseInt10 d)
              | None \<Rightarrow> parseDate rt trimmed))))"
| "parseExcelDate rt (JBool b) = None"

subsection \<open>parseAmount\<close>

fun parseAmount :: "js_runtime \<Rightarrow> jsval \<Rightarrow> jsnum" where
  "parseAmount rt (JNum n) = n"
| "parseAmount rt (JStr s) =
     (let clean = filter (\<lambda>c. is_digit c \<or> c = CHR ''.'' \<or> c = CHR ''-'') s;
          num = parseFloat rt clean
      in if num = NaN then Fin 0 else num)"
| "parseAmount rt v = Fin 0"

subsection \<open>Records\<close>

text \<open>
  \<^verbatim>\<open>ColumnMapping\<close> (types.ts). An optional field is \<open>None\<close> when undefined; a field
  the mapping dialog leaves unselected is the empty string.
\<close>

record ColumnMapping =
  m_otNumber :: string
  m_folio :: string
  m_clientCode :: string
  m_workshop :: string
  m_promisedDate :: string
  m_secondPromisedDate :: "string option"
  m_realDeliveryDate :: string
  m_billingDate :: "string option"
  m_amount :: string
  m_otType :: string
  m_invoiceNumber :: "string option"
  m_additionalFilters :: "string list"

text \<open>
  \<^verbatim>\<open>ParsedOT\<close> (types.ts). A date field is \<open>None\<close> for null and the time value of a
  valid date otherwise: \<open>parseExcelDate\<close>, which fills these fields, returns null for
  every invalid date. \<open>customValues\<close> is an object used as a dictionary, kept as an
  association list in insertion order.
\<close>

record ParsedOT =
  ot_id :: string
  invoiceId :: "string option"
  folio :: string
  workshop :: string
  estimatedDate :: "int option"
  secondEstimatedDate :: "int option"
  realDate :: "int option"
  billingDate :: "int option"
  status :: string
  clientCode :: string
  clientName :: "string option"
  isInternalClient :: bool
  amount :: jsnum
  otType :: string
  customValues :: "(string \<times> string) list"

record ProcessingReport =
  totalRows :: nat
  emptyRows :: nat
  duplicatesRemovedForCompliance :: nat
  removedOtIds :: "string list"
  internalClientsCount :: nat
  internalClientsByCode :: "(string \<times> nat) list"

record ProcessResult =
  allRows :: "ParsedOT list"
  uniqueOTs :: "ParsedOT list"
  report :: ProcessingReport

type_synonym ExcelRow = "string \<Rightarrow> jsval"

text \<open>
  A row is an object read by column name; a column the row lacks reads as
  \<^verbatim>\<open>undefined\<close>. Column names that are members of \<^verbatim>\<open>Object.prototype\<close>
  (\<^verbatim>\<open>constructor\<close>, \<^verbatim>\<open>toString\<close>), which read as the inherited function in a row
  that lacks them, are outside the model.
\<close>

subsection \<open>Dictionaries\<close>

text \<open>
  \<^verbatim>\<open>Map.prototype.set\<close> and the assignment \<^verbatim>\<open>obj[k] = v\<close>: an existing key keeps its
  place and takes the new value, a new key goes last. Lookup is \<open>map_of\<close>.
\<close>

fun dict_set :: "'k \<Rightarrow> 'v \<Rightarrow> ('k \<times> 'v) list \<Rightarrow> ('k \<times> 'v) list" where
  "dict_set k v [] = [(k, v)]"
| "dict_set k v ((k', v') # d) =
     (if k' = k then (k, v) # d else (k', v') # dict_set k v d)"

subsection \<open>processSheet\<close>

text \<open>Line 104: \<^verbatim>\<open>String(row[mapping.otNumber] || '').trim()\<close>.\<close>

definition otNumberOf :: "js_runtime \<Rightarrow> ColumnMapping \<Rightarrow> ExcelRow \<Rightarrow> string" where
  "otNumberOf rt mapping row = trim (js_String rt (js_or (row (m_otNumber mapping)) (JStr [])))"

text \<open>
  Lines 125 to 128: the custom values of a row, one per additional filter field. The list
  keeps the order of insertion; a JavaScript object enumerates integer-like keys first,
  which no lookup by key can tell.
\<close>

definition customValuesOf :: "js_runtime \<Rightarrow> ColumnMapping \<Rightarrow> ExcelRow \<Rightarrow> (string \<times> string) list" where
  "customValuesOf rt mapping row =
     foldl (\<lambda>cv field. dict_set field (trim (js_String rt (js_or (row field) (JStr ''N/A'')))) cv)
       [] (m_additionalFilters mapping)"

text \<open>Lines 110 to 145: the record built from a row whose OT number is \<open>otNumber\<close>.\<close>

definition parseRow :: "js_runtime \<Rightarrow> ColumnMapping \<Rightarrow> ExcelRow \<Rightarrow> string \<Rightarrow> ParsedOT" where
  "parseRow rt mapping row otNumber =
     (let clientCode = trim (js_String rt (js_or (row (m_clientCode mapping)) (JStr [])));
          folio = (if m_folio mapping \<noteq> []
                   then trim (js_String rt (js_or (row (m_folio mapping)) (JStr []))) else []);
          workshopName =
            trim (js_String rt (js_or (row (m_workshop mapping)) (JStr ''Sin Taller Asignado'')));
          amount = (if m_amount mapping \<noteq> []
                    then parseAmount rt (row (m_amount mapping)) else Fin 0);
          otType = (if m_otType mapping \<noteq> []
                    then trim (js_String rt (js_or (row (m_otType mapping)) (JStr [])))
                    else ''N/A'');
          invoiceId =
            (case m_invoiceNumber mapping of
               None \<Rightarrow> None
             | Some c \<Rightarrow> if c \<noteq> [] then Some (trim (js_String rt (js_or (row c) (JStr []))))
                         else None);
          isInternal = (clientCode \<in> set INTERNAL_CLIENT_CODES);
          estimatedDate = parseExcelDate rt (row (m_promisedDate mapping));
          secondEstimatedDate =
            (case m_secondPromisedDate mapping of
               None \<Rightarrow> None
             | Some c \<Rightarrow> if c \<noteq> [] then parseExcelDate rt (row c) else None);
          realDate = parseExcelDate rt (row (m_realDeliveryDate mapping));
          billingDate =
            (case m_billingDate mapping of
               None \<Rightarrow> None
             | Some c \<Rightarrow> if c \<noteq> [] then parseExcelDate rt (row c) else None);
          customValues = customValuesOf rt mapping row
      in \<lparr> ot_id = otNumber,
           invoiceId = invoiceId,
           folio = folio,
           workshop = (if workshopName \<noteq> [] then workshopName else ''Sin Taller''),
           estimatedDate = estimatedDate,
           secondEstimatedDate = secondEstimatedDate,
           realDate = realDate,
           billingDate = billingDate,
           status = ''Procesado'',
           clientCode = clientCode,
           clientName = None,
           isInternalClient = isInternal,
           amount = amount,
           otType = otType,
           customValues = customValues \<rparr>)"

text \<open>The variables the loop over the rows updates (lines 93 to 99).\<close>

record pass_state =
  acc_allRows :: "ParsedOT list"
  otMapForCompliance :: "(string \<times> ParsedOT) list"
  acc_totalRows :: nat
  acc_emptyRows :: nat
  acc_duplicates :: nat
  acc_removedOtIds :: "string list"

definition init_state :: pass_state where
  "init_state = \<lparr> acc_allRows = [], otMapForCompliance = [], acc_totalRows = 0,
                  acc_emptyRows = 0, acc_duplicates = 0, acc_removedOtIds = [] \<rparr>"

text \<open>
  Lines 151 to 172: the compliance map after the record \<open>parsedRow\<close>. The key
  \<^verbatim>\<open>otNumber\<close> is the id of the record (line 131). The records are never changed
  once built, so a record stands for the object the source stores.
\<close>

definition reconcile :: "pass_state \<Rightarrow> ParsedOT \<Rightarrow> pass_state" where
  "reconcile st parsedRow =
     (let otNumber = ot_id parsedRow in
      case map_of (otMapForCompliance st) otNumber of
        Some existingOT \<Rightarrow>
          (let st1 = st\<lparr> acc_duplicates := acc_duplicates st + 1 \<rparr> in
           if isInternalClient existingOT \<and> \<not> isInternalClient parsedRow then
             st1\<lparr> acc_removedOtIds :=
                     acc_removedOtIds st1 @ [ot_id existingOT @ '' (Reemplazado interno por externo)''],
                  otMapForCompliance := dict_set otNumber parsedRow (otMapForCompliance st1) \<rparr>
           else if \<not> isInternalClient existingOT \<and> isInternalClient parsedRow then
             st1\<lparr> acc_removedOtIds :=
                     acc_removedOtIds st1 @ [ot_id parsedRow @ '' (Duplicado interno ignorado)''] \<rparr>
           else if realDate existingOT = None \<and> realDate parsedRow \<noteq> None then
             st1\<lparr> acc_removedOtIds :=
                     acc_removedOtIds st1
                       @ [ot_id existingOT @ '' (Reemplazado por registro con fecha entrega)''],
                  otMapForCompliance := dict_set otNumber parsedRow (otMapForCompliance st1) \<rparr>
           else
             st1\<lparr> acc_removedOtIds :=
                     acc_removedOtIds st1 @ [ot_id parsedRow @ '' (Duplicado ignorado)''] \<rparr>)
      | None \<Rightarrow>
          st\<lparr> otMapForCompliance := dict_set otNumber parsedRow (otMapForCompliance st) \<rparr>)"

text \<open>Lines 101 to 173: the body of the loop, for one row.\<close>

definition processRow :: "js_runtime \<Rightarrow> ColumnMapping \<Rightarrow> pass_state \<Rightarrow> ExcelRow \<Rightarrow> pass_state" where
  "processRow rt mapping st row =
     (let st1 = st\<lparr> acc_totalRows := acc_totalRows st + 1 \<rparr>;
          otNumber = otNumberOf rt mapping row
      in if otNumber = [] then st1\<lparr> acc_emptyRows := acc_emptyRows st1 + 1 \<rparr>
         else
          (let parsedRow = parseRow rt mapping row otNumber;
               st2 = st1\<lparr> acc_allRows := acc_allRows st1 @ [parsedRow] \<rparr>
           in reconcile st2 parsedRow))"

text \<open>Lines 177 to 185: the tally of the internal clients over all the rows.\<close>

definition tallyInternal :: "nat \<times> (string \<times> nat) list \<Rightarrow> ParsedOT \<Rightarrow> nat \<times> (string \<times> nat) list" where
  "tallyInternal acc ot =
     (if isInternalClient ot then
        (fst acc + 1,
         dict_set (clientCode ot)
           ((case map_of (snd acc) (clientCode ot) of None \<Rightarrow> 0 | Some n \<Rightarrow> n) + 1)
           (snd acc))
      else acc)"

text \<open>
  \<open>processSheet\<close>, from the decoded rows of the sheet on (\<^verbatim>\<open>jsonData\<close>, which the
  spreadsheet library produces from the workbook).
\<close>

definition processSheet :: "js_runtime \<Rightarrow> ColumnMapping \<Rightarrow> ExcelRow list \<Rightarrow> ProcessResult" where
  "processSheet rt mapping jsonData =
     (let st = foldl (processRow rt mapping) init_state jsonData;
          uniqueOTs = map snd (otMapForCompliance st);
          tally = foldl tallyInternal (0, []) (acc_allRows st)
      in \<lparr> allRows = acc_allRows st,
           uniqueOTs = uniqueOTs,
           report = \<lparr> totalRows = acc_totalRows st,
                      emptyRows = acc_emptyRows st,
                      duplicatesRemovedForCompliance = acc_duplicates st,
                      removedOtIds = acc_removedOtIds st,
                      internalClientsCount = fst tally,
                      internalClientsByCode = snd tally \<rparr> \<rparr>)"

subsection \<open>calculateStats\<close>

record WorkshopStats =
  ws_name :: string
  ws_totalOTs :: nat
  ws_onTime :: nat
  ws_late :: nat
  ws_pending :: nat
  ws_complianceRate :: rat
  ws_totalAmount :: jsnum

record GlobalStats =
  totalOTs :: nat
  totalOnTime :: nat
  totalLate :: nat
  totalPending :: nat
  averageCompliance :: rat
  totalAmount :: jsnum
  workshops :: "WorkshopStats list"

text \<open>The entry of a workshop in \<^verbatim>\<open>workshopMap\<close>.\<close>

record wentry =
  w_total :: nat
  w_onTime :: nat
  w_late :: nat
  w_pending :: nat
  w_amount :: jsnum

text \<open>The variables the loop over the records updates (lines 202 to 208).\<close>

record stats_state =
  workshopMap :: "(string \<times> wentry) list"
  globalTotal :: nat
  globalOnTime :: nat
  globalLate :: nat
  globalPending :: nat
  globalAmount :: jsnum

definition init_stats :: stats_state where
  "init_stats = \<lparr> workshopMap = [], globalTotal = 0, globalOnTime = 0, globalLate = 0,
                  globalPending = 0, globalAmount = Fin 0 \<rparr>"

text \<open>
  Lines 210 to 247: the body of the loop, for one record. The entry of the workshop is
  created on its first record and updated in place, which leaves it where it is in the map.
\<close>

definition statsStep :: "js_runtime \<Rightarrow> stats_state \<Rightarrow> ParsedOT \<Rightarrow> stats_state" where
  "statsStep rt st ot =
     (let amount1 = js_add (globalAmount st) (amount ot);
          stats0 = (case map_of (workshopMap st) (workshop ot) of
                      None \<Rightarrow> \<lparr> w_total = 0, w_onTime = 0, w_late = 0, w_pending = 0,
                                 w_amount = Fin 0 \<rparr>
                    | Some e \<Rightarrow> e);
          stats1 = stats0\<lparr> w_total := w_total stats0 + 1,
                           w_amount := js_add (w_amount stats0) (amount ot) \<rparr>;
          st1 = st\<lparr> globalAmount := amount1, globalTotal := globalTotal st + 1 \<rparr>;
          targetDate = (case secondEstimatedDate ot of
                          Some d \<Rightarrow> Some d
                        | None \<Rightarrow> estimatedDate ot)
      in case (realDate ot, targetDate) of
           (Some r, Some t) \<Rightarrow>
             (let target = startOfDay rt t; real = startOfDay rt r in
              if real \<le> target then
                st1\<lparr> workshopMap :=
                       dict_set (workshop ot) (stats1\<lparr> w_onTime := w_onTime stats1 + 1 \<rparr>)
                         (workshopMap st1),
                     globalOnTime := globalOnTime st1 + 1 \<rparr>
              else
                st1\<lparr> workshopMap :=
                       dict_set (workshop ot) (stats1\<lparr> w_late := w_late stats1 + 1 \<rparr>)
                         (workshopMap st1),
                     globalLate := globalLate st1 + 1 \<rparr>)
         | (None, Some t) \<Rightarrow>
             st1\<lparr> workshopMap :=
                    dict_set (workshop ot) (stats1\<lparr> w_pending := w_pending stats1 + 1 \<rparr>)
                      (workshopMap st1),
                  globalPending := globalPending st1 + 1 \<rparr>
         | (_, None) \<Rightarrow>
             st1\<lparr> workshopMap :=
                    dict_set (workshop ot) (stats1\<lparr> w_pending := w_pending stats1 + 1 \<rparr>)
                      (workshopMap st1),
                  globalPending := globalPending st1 + 1 \<rparr>)"

text \<open>
  \<^verbatim>\<open>parseFloat(x.toFixed(2))\<close> for a rate \<open>x \<ge> 0\<close>: two decimals, a tie going
  up, on the exact value of \<open>x\<close>. The code rounds the double nearest to the rate, which
  can fall on the other side of a tie (23 of 160 is 14.375 exactly and rounds to 14.38
  here, to 14.37 in the code).
\<close>

definition toFixed2 :: "rat \<Rightarrow> rat" where
  "toFixed2 x = of_int \<lfloor>x * 100 + 1 / 2\<rfloor> / 100"

definition rate :: "nat \<Rightarrow> nat \<Rightarrow> rat" where
  "rate n tot = (if tot > 0 then toFixed2 (of_nat n / of_nat tot * 100) else 0)"

definition toWorkshopStats :: "string \<times> wentry \<Rightarrow> WorkshopStats" where
  "toWorkshopStats kv =
     \<lparr> ws_name = fst kv,
       ws_totalOTs = w_total (snd kv),
       ws_onTime = w_onTime (snd kv),
       ws_late = w_late (snd kv),
       ws_pending = w_pending (snd kv),
       ws_complianceRate = rate (w_onTime (snd kv)) (w_total (snd kv)),
       ws_totalAmount = w_amount (snd kv) \<rparr>"

text \<open>
  The workshops are sorted by \<^verbatim>\<open>b.totalOTs - a.totalOTs\<close>: descending, and stable as
  \<^verbatim>\<open>Array.prototype.sort\<close> is.
\<close>

definition calculateStats :: "js_runtime \<Rightarrow> ParsedOT list \<Rightarrow> GlobalStats" where
  "calculateStats rt ots =
     (let st = foldl (statsStep rt) init_stats ots in
      \<lparr> totalOTs = globalTotal st,
        totalOnTime = globalOnTime st,
        totalLate = globalLate st,
        totalPending = globalPending st,
        averageCompliance = rate (globalOnTime st) (globalTotal st),
        totalAmount = globalAmount st,
        workshops = sort_key (\<lambda>w. - int (ws_totalOTs w)) (map toWorkshopStats (workshopMap st)) \<rparr>)"

section \<open>Dashboard.tsx\<close>

text \<open>
  The filter state of the dashboard: the selected year, month and workshop (\<^verbatim>\<open>'all'\<close>
  for no selection) and the selected value of each additional filter field.
\<close>

record FilterState =
  selectedYear :: string
  selectedMonth :: string
  selectedWorkshop :: string
  dynamicFilters :: "(string \<times> string) list"

definition checkFilters :: "js_runtime \<Rightarrow> FilterState \<Rightarrow> ParsedOT \<Rightarrow> bool" where
  "checkFilters rt fs ot =
     (let dateMatch =
            (if selectedYear fs \<noteq> ''all'' then
               (case billingDate ot of
                  None \<Rightarrow> False
                | Some d \<Rightarrow>
                   (let yearMatch =
                          (numberToString rt (Fin (of_int (getFullYear rt d))) = selectedYear fs);
                        monthMatch =
                          (selectedMonth fs = ''all''
                           \<or> numberToString rt (Fin (of_int (getMonth rt d))) = selectedMonth fs)
                    in yearMatch \<and> monthMatch))
             else True);
          workshopMatch = (selectedWorkshop fs = ''all'' \<or> workshop ot = selectedWorkshop fs);
          dynamicMatch =
            list_all (\<lambda>(field, value).
                \<not> (value \<noteq> ''all'' \<and> map_of (customValues ot) field \<noteq> Some value))
              (dynamicFilters fs)
      in dateMatch \<and> workshopMatch \<and> dynamicMatch)"

definition complianceData :: "js_runtime \<Rightarrow> FilterState \<Rightarrow> ParsedOT list \<Rightarrow> ParsedOT list" where
  "complianceData rt fs unique =
     filter (\<lambda>ot. if clientCode ot \<in> set [''C0008157'', ''C0001114'', ''C0001140'']
                    then False else checkFilters rt fs ot) unique"

definition financialData :: "js_runtime \<Rightarrow> FilterState \<Rightarrow> ParsedOT list \<Rightarrow> ParsedOT list" where
  "financialData rt fs rows =
     filter (\<lambda>ot. if clientCode ot \<in> set [''C0008157'', ''C0001114'', ''C0001140'']
                    then False else checkFilters rt fs ot) rows"

section \<open>Specification-side definitions\<close>

text \<open>
  The compliance view of a sequence of records: the values of the compliance map after
  lines 151 to 172 have run on each record in turn. \<open>processSheet\<close> computes its
  \<open>uniqueOTs\<close> this way from its \<open>allRows\<close> (lemma \<open>uniqueOTs_reconcileRecords\<close>
  below).
\<close>

definition reconcileRecords :: "ParsedOT list \<Rightarrow> ParsedOT list" where
  "reconcileRecords rs = map snd (otMapForCompliance (foldl reconcile init_state rs))"

text \<open>
  What holds of the variables of the pass after every row: the keys of the compliance map
  are distinct and are the ids of the records ingested so far; each key maps to a record
  of that id, which is one of the records ingested; and every ingested record is either the
  first of its id or counted as a duplicate.
\<close>

definition pass_inv :: "pass_state \<Rightarrow> bool" where
  "pass_inv st =
     (distinct (map fst (otMapForCompliance st))
      \<and> set (map fst (otMapForCompliance st)) = set (map ot_id (acc_allRows st))
      \<and> map ot_id (map snd (otMapForCompliance st)) = map fst (otMapForCompliance st)
      \<and> set (map snd (otMapForCompliance st)) \<subseteq> set (acc_allRows st)
      \<and> acc_duplicates st + length (otMapForCompliance st) = length (acc_allRows st))"

text \<open>
  The ids that occur more than once in a sequence of records, each listed once.
\<close>

definition repeatedIds :: "ParsedOT list \<Rightarrow> string list" where
  "repeatedIds rs = filter (\<lambda>k. 1 < count_list (map ot_id rs) k) (remdups (map ot_id rs))"

text \<open>
  The effect of a row without OT number on the variables of the pass.
\<close>

definition countBlank :: "pass_state \<Rightarrow> pass_state" where
  "countBlank st = st\<lparr> acc_totalRows := acc_totalRows st + 1, acc_emptyRows := acc_emptyRows st + 1 \<rparr>"

text \<open>
  A blank cell: missing, empty, or white space only.
\<close>

fun blank_cell :: "jsval \<Rightarrow> bool" where
  "blank_cell JUndefined = True"
| "blank_cell JNull = True"
| "blank_cell (JStr s) = (trim s = [])"
| "blank_cell v = False"

text \<open>
  The classification of a record as the specification words it: the target date is the
  second estimated date if present, else the estimated date; without a target date the
  record is pending, whatever its real date; with a target date and no real date it is
  pending; with both it is on time when the day of the real date is not after the day of
  the target date, and late otherwise.
\<close>

datatype delivery = OnTime | Late | Pending

definition targetDateOf :: "ParsedOT \<Rightarrow> int option" where
  "targetDateOf ot =
     (case secondEstimatedDate ot of Some d \<Rightarrow> Some d | None \<Rightarrow> estimatedDate ot)"

definition classify :: "js_runtime \<Rightarrow> ParsedOT \<Rightarrow> delivery" where
  "classify rt ot =
     (case targetDateOf ot of
        None \<Rightarrow> Pending
      | Some t \<Rightarrow>
         (case realDate ot of
            None \<Rightarrow> Pending
          | Some r \<Rightarrow> if startOfDay rt r \<le> startOfDay rt t then OnTime else Late))"

text \<open>
  The count an object of counters holds for a key: \<^verbatim>\<open>counts[c] || 0\<close>.
\<close>

definition countOf :: "(string \<times> nat) list \<Rightarrow> string \<Rightarrow> nat" where
  "countOf d c = (case map_of d c of None \<Rightarrow> 0 | Some n \<Rightarrow> n)"

text \<open>
  The serial of a date: its days since 1899-12-30, that is the milliseconds since the Unix
  epoch over 86400000, plus 25569.
\<close>

definition serialOfDate :: "int \<Rightarrow> rat" where
  "serialOfDate t = of_int t / 86400000 + 25569"

subsection \<open>Example data\<close>

text \<open>
  The runtime of the examples. Its days start at midnight UTC; it renders every number
  and date as the empty string and parses no string. The cells of the example rows are
  strings, serial numbers or absent and the example filter selects nothing, so that
  \<open>startOfDay\<close> is all the examples ever ask of it.
\<close>

definition sample_runtime :: js_runtime where
  "sample_runtime =
     \<lparr> numberToString = (\<lambda>n. []),
       dateToString = (\<lambda>d. []),
       stringToNumber = (\<lambda>s. NaN),
       parseFloat = (\<lambda>s. NaN),
       localDate = (\<lambda>y m d. None),
       parseDate = (\<lambda>s. None),
       startOfDay = (\<lambda>t. t - t mod 86400000),
       getFullYear = (\<lambda>t. 1970),
       getMonth = (\<lambda>t. 0) \<rparr>"

text \<open>
  The row object with the given cells.
\<close>

definition cells :: "(string \<times> jsval) list \<Rightarrow> ExcelRow" where
  "cells cs k = (case map_of cs k of None \<Rightarrow> JUndefined | Some v \<Rightarrow> v)"

text \<open>
  A mapping with the required columns and the OT type mapped; folio, amount, the second
  promised date, the billing date and the invoice number are left unmapped.
\<close>

definition sample_mapping :: ColumnMapping where
  "sample_mapping =
     \<lparr> m_otNumber = ''OT'', m_folio = [], m_clientCode = ''Cliente'', m_workshop = ''Taller'',
       m_promisedDate = ''Estimada'', m_secondPromisedDate = None,
       m_realDeliveryDate = ''Real'', m_billingDate = None, m_amount = [],
       m_otType = ''Tipo'', m_invoiceNumber = None, m_additionalFilters = [] \<rparr>"

text \<open>
  Rows of the OT 1001: for an internal client, for an external client, and for the
  external client with the real delivery date of serial 45000; a row whose OT number is
  white space; a row with nothing but an OT number; a row whose workshop and OT type are
  white space.
\<close>

definition row_internal :: ExcelRow where
  "row_internal =
     cells [(''OT'', JStr ''1001''), (''Cliente'', JStr ''C0008157''), (''Taller'', JStr ''Norte'')]"

definition row_external :: ExcelRow where
  "row_external =
     cells [(''OT'', JStr ''1001''), (''Cliente'', JStr ''C0100''), (''Taller'', JStr ''Norte'')]"

definition row_delivered :: ExcelRow where
  "row_delivered =
     cells [(''OT'', JStr ''1001''), (''Cliente'', JStr ''C0100''), (''Taller'', JStr ''Norte''),
            (''Real'', JNum (Fin 45000))]"

definition row_blank :: ExcelRow where
  "row_blank = cells [(''OT'', JStr ''  ''), (''Cliente'', JStr ''C0008157'')]"

definition row_bare :: ExcelRow where
  "row_bare = cells [(''OT'', JStr ''1002'')]"

definition row_spaces :: ExcelRow where
  "row_spaces = cells [(''OT'', JStr ''1003''), (''Taller'', JStr ''  ''), (''Tipo'', JStr '' '')]"

text \<open>
  The records \<open>parseRow\<close> builds from the first three rows, and records with given
  estimated, second estimated and real dates.
\<close>

definition rec_external :: ParsedOT where
  "rec_external =
     \<lparr> ot_id = ''1001'', invoiceId = None, folio = [], workshop = ''Norte'',
       estimatedDate = None, secondEstimatedDate = None, realDate = None, billingDate = None,
       status = ''Procesado'', clientCode = ''C0100'', clientName = None,
       isInternalClient = False, amount = Fin 0, otType = [], customValues = [] \<rparr>"

definition rec_internal :: ParsedOT where
  "rec_internal = rec_external\<lparr> clientCode := ''C0008157'', isInternalClient := True \<rparr>"

definition rec_delivered :: ParsedOT where
  "rec_delivered = rec_external\<lparr> realDate := Some 1678838400000 \<rparr>"

definition rec_dated :: "int option \<Rightarrow> int option \<Rightarrow> int option \<Rightarrow> ParsedOT" where
  "rec_dated e s r = rec_external\<lparr> estimatedDate := e, secondEstimatedDate := s, realDate := r \<rparr>"

definition sample_filter :: FilterState where
  "sample_filter = \<lparr> selectedYear = ''all'', selectedMonth = ''all'', selectedWorkshop = ''all'',
                      dynamicFilters = [] \<rparr>"

section \<open>Dictionaries\<close>

lemma map_of_dict_set: "map_of (dict_set k v d) = (map_of d)(k \<mapsto> v)"
  by (induction d) auto

lemma keys_dict_set:
  "map fst (dict_set k v d) = (if k \<in> set (map fst d) then map fst d else map fst d @ [k])"
  by (induction d) (auto simp: rev_image_eqI)

lemma dict_set_new: "map_of d k = None \<Longrightarrow> dict_set k v d = d @ [(k, v)]"
  by (induction d) (auto split: if_splits)

lemma in_dict_set: "x \<in> set (dict_set k v d) \<Longrightarrow> x = (k, v) \<or> x \<in> set d"
  by (induction d) (auto split: if_splits)

lemma vals_dict_set: "set (map snd (dict_set k v d)) \<subseteq> insert v (set (map snd d))"
  using in_dict_set[of _ k v d] by force

lemma length_dict_set_old: "map_of d k = Some w \<Longrightarrow> length (dict_set k v d) = length d"
  by (induction d) (auto split: if_splits)

lemma ids_dict_set_old:
  "map_of d k = Some w \<Longrightarrow> ot_id v = k \<Longrightarrow> map ot_id (map snd d) = map fst d
    \<Longrightarrow> map ot_id (map snd (dict_set k v d)) = map fst (dict_set k v d)"
  by (induction d) (auto split: if_splits)

lemma map_of_None_keys: "map_of d k = None \<longleftrightarrow> k \<notin> set (map fst d)"
  by (simp add: map_of_eq_None_iff)

section \<open>The pass over the rows\<close>

text \<open>
  Reconciliation leaves the list of all records and the row counters alone.
\<close>

lemma reconcile_frame:
  "acc_allRows (reconcile st p) = acc_allRows st"
  "acc_totalRows (reconcile st p) = acc_totalRows st"
  "acc_emptyRows (reconcile st p) = acc_emptyRows st"
  by (simp_all add: reconcile_def Let_def split: option.splits)

text \<open>
  The invariant holds initially and every row preserves it.
\<close>

lemma reconcile_inv:
  assumes "pass_inv st"
  shows "pass_inv (reconcile (st\<lparr> acc_allRows := acc_allRows st @ [p] \<rparr>) p)"
proof -
  let ?M = "otMapForCompliance st"
  let ?A = "acc_allRows st"
  let ?st' = "reconcile (st\<lparr> acc_allRows := ?A @ [p] \<rparr>) p"
  from assms have
    i1: "distinct (map fst ?M)" and
    i2: "set (map fst ?M) = set (map ot_id ?A)" and
    i3: "map ot_id (map snd ?M) = map fst ?M" and
    i4: "set (map snd ?M) \<subseteq> set ?A" and
    i5: "acc_duplicates st + length ?M = length ?A"
    by (simp_all add: pass_inv_def)
  have a': "acc_allRows ?st' = ?A @ [p]"
    by (simp add: reconcile_frame)
  show ?thesis
  proof (cases "map_of ?M (ot_id p)")
    case None
    then have new: "ot_id p \<notin> set (map fst ?M)"
      by (simp add: map_of_None_keys)
    have m': "otMapForCompliance ?st' = ?M @ [(ot_id p, p)]"
      using None by (simp add: reconcile_def Let_def dict_set_new)
    have d': "acc_duplicates ?st' = acc_duplicates st"
      using None by (simp add: reconcile_def Let_def)
    show ?thesis
      unfolding pass_inv_def a' m' d'
      using i1 i2 i3 i4 i5 new by auto
  next
    case (Some e)
    then have old: "ot_id p \<in> set (map fst ?M)"
      using map_of_None_keys[of ?M "ot_id p"] by auto
    have d': "acc_duplicates ?st' = acc_duplicates st + 1"
      using Some by (simp add: reconcile_def Let_def)
    have M': "otMapForCompliance ?st' = ?M \<or> otMapForCompliance ?st' = dict_set (ot_id p) p ?M"
      using Some by (simp add: reconcile_def Let_def)
    have k: "map fst (dict_set (ot_id p) p ?M) = map fst ?M"
      using old by (simp add: keys_dict_set)
    have i: "map ot_id (map snd (dict_set (ot_id p) p ?M)) = map fst ?M"
      using ids_dict_set_old[OF Some refl i3] k by simp
    have v: "set (map snd (dict_set (ot_id p) p ?M)) \<subseteq> set (?A @ [p])"
      using vals_dict_set[of "ot_id p" p ?M] i4 by auto
    have l: "length (dict_set (ot_id p) p ?M) = length ?M"
      using Some by (rule length_dict_set_old)
    have s2: "set (map fst ?M) = set (map ot_id (?A @ [p]))"
      using i2 old by auto
    have s4: "set (map snd ?M) \<subseteq> set (?A @ [p])"
      using i4 by auto
    have s5: "acc_duplicates st + 1 + length ?M = length (?A @ [p])"
      using i5 by simp
    from M' show ?thesis
    proof
      assume eq: "otMapForCompliance ?st' = ?M"
      show ?thesis
        unfolding pass_inv_def a' eq d'
        using i1 s2 i3 s4 s5 by blast
    next
      assume eq: "otMapForCompliance ?st' = dict_set (ot_id p) p ?M"
      show ?thesis
        unfolding pass_inv_def a' eq d' k i l
        using i1 s2 v s5 by blast
    qed
  qed
qed

lemma processRow_inv: "pass_inv st \<Longrightarrow> pass_inv (processRow rt m st row)"
proof -
  assume a: "pass_inv st"
  have b: "pass_inv (st\<lparr> acc_totalRows := n \<rparr>)" for n
    using a by (simp add: pass_inv_def)
  show ?thesis
    using reconcile_inv[OF b, where p = "parseRow rt m row (otNumberOf rt m row)"] b
    by (simp add: processRow_def Let_def pass_inv_def)
qed

lemma foldl_processRow_inv: "pass_inv st \<Longrightarrow> pass_inv (foldl (processRow rt m) st rows)"
  by (induction rows arbitrary: st) (simp_all add: processRow_inv)

lemma init_inv: "pass_inv init_state"
  by (simp add: pass_inv_def init_state_def)

lemma final_inv: "pass_inv (foldl (processRow rt m) init_state rows)"
  by (rule foldl_processRow_inv[OF init_inv])

lemma pass_invD:
  assumes "pass_inv st"
  shows "distinct (map fst (otMapForCompliance st))"
    and "set (map fst (otMapForCompliance st)) = set (map ot_id (acc_allRows st))"
    and "map ot_id (map snd (otMapForCompliance st)) = map fst (otMapForCompliance st)"
    and "set (map snd (otMapForCompliance st)) \<subseteq> set (acc_allRows st)"
    and "acc_duplicates st + length (otMapForCompliance st) = length (acc_allRows st)"
  using assms by (simp_all add: pass_inv_def)

lemmas final_facts = pass_invD[OF final_inv]

lemma processSheet_fields:
  "allRows (processSheet rt m rows) = acc_allRows (foldl (processRow rt m) init_state rows)"
  "uniqueOTs (processSheet rt m rows)
     = map snd (otMapForCompliance (foldl (processRow rt m) init_state rows))"
  "duplicatesRemovedForCompliance (report (processSheet rt m rows))
     = acc_duplicates (foldl (processRow rt m) init_state rows)"
  by (simp_all add: processSheet_def Let_def)

text \<open>
  \<open>allRows\<close> holds the record of every row with an OT number, in the order of the rows.
\<close>

lemma allRows_foldl:
  "acc_allRows (foldl (processRow rt m) st rows)
     = acc_allRows st @ map (\<lambda>row. parseRow rt m row (otNumberOf rt m row))
                          (filter (\<lambda>row. otNumberOf rt m row \<noteq> []) rows)"
  by (induction rows arbitrary: st) (simp_all add: processRow_def Let_def reconcile_frame)

lemma allRows_processSheet:
  "allRows (processSheet rt m rows)
     = map (\<lambda>row. parseRow rt m row (otNumberOf rt m row))
         (filter (\<lambda>row. otNumberOf rt m row \<noteq> []) rows)"
  by (simp add: processSheet_def Let_def allRows_foldl init_state_def)

text \<open>
  The compliance map after a record depends on the map before it and on the record only.
\<close>

lemma otMap_reconcile:
  "otMapForCompliance (reconcile st p)
     = (case map_of (otMapForCompliance st) (ot_id p) of
          None \<Rightarrow> dict_set (ot_id p) p (otMapForCompliance st)
        | Some e \<Rightarrow>
            if (isInternalClient e \<and> \<not> isInternalClient p)
               \<or> (isInternalClient e = isInternalClient p \<and> realDate e = None \<and> realDate p \<noteq> None)
            then dict_set (ot_id p) p (otMapForCompliance st)
            else otMapForCompliance st)"
  by (cases "map_of (otMapForCompliance st) (ot_id p)") (auto simp: reconcile_def Let_def)

lemma otMap_reconcile_cong:
  assumes "otMapForCompliance st = otMapForCompliance st'"
  shows "otMapForCompliance (reconcile st p) = otMapForCompliance (reconcile st' p)"
  unfolding otMap_reconcile assms ..

lemma otMap_foldl:
  "otMapForCompliance st = otMapForCompliance st'
    \<Longrightarrow> otMapForCompliance (foldl (processRow rt m) st rows)
        = otMapForCompliance (foldl reconcile st'
            (map (\<lambda>row. parseRow rt m row (otNumberOf rt m row))
               (filter (\<lambda>row. otNumberOf rt m row \<noteq> []) rows)))"
proof (induction rows arbitrary: st st')
  case Nil
  then show ?case by simp
next
  case (Cons row rows)
  show ?case
  proof (cases "otNumberOf rt m row = []")
    case True
    have "otMapForCompliance (processRow rt m st row) = otMapForCompliance st'"
      using True Cons.prems by (simp add: processRow_def Let_def)
    from Cons.IH[OF this] show ?thesis using True by simp
  next
    case False
    let ?p = "parseRow rt m row (otNumberOf rt m row)"
    have "otMapForCompliance (processRow rt m st row)
        = otMapForCompliance (reconcile (st\<lparr> acc_totalRows := acc_totalRows st + 1,
                                               acc_allRows := acc_allRows st @ [?p] \<rparr>) ?p)"
      using False by (simp add: processRow_def Let_def)
    also have "\<dots> = otMapForCompliance (reconcile st' ?p)"
      by (rule otMap_reconcile_cong) (simp add: Cons.prems)
    finally have "otMapForCompliance (processRow rt m st row)
        = otMapForCompliance (reconcile st' ?p)" .
    from Cons.IH[OF this] show ?thesis using False by simp
  qed
qed

lemma uniqueOTs_reconcileRecords:
  "uniqueOTs (processSheet rt m rows) = reconcileRecords (allRows (processSheet rt m rows))"
  unfolding allRows_processSheet reconcileRecords_def
  by (simp add: processSheet_def Let_def otMap_foldl[of _ init_state])

lemma sample_allRows:
  "allRows (processSheet sample_runtime sample_mapping [row_internal, row_external])
     = [rec_internal, rec_external]"
  "allRows (processSheet sample_runtime sample_mapping [row_external, row_internal])
     = [rec_external, rec_internal]"
  "allRows (processSheet sample_runtime sample_mapping [row_external, row_delivered])
     = [rec_external, rec_delivered]"
  "allRows (processSheet sample_runtime sample_mapping [row_delivered, row_external])
     = [rec_delivered, rec_external]"
  by code_simp+

section \<open>Duplicates (C1)\<close>

lemma count_sum: "length xs = (\<Sum>k\<in>set xs. count_list xs k)"
  using sum_count_set[of xs "set xs"] by simp

lemma repeated_sum:
  "length (filter P (remdups xs)) = (\<Sum>k\<in>set xs. if P k then 1 else 0)"
proof -
  have "length (filter P (remdups xs)) = card ({k. P k} \<inter> set xs)"
    by (simp add: distinct_length_filter)
  also have "\<dots> = card (set xs \<inter> {k. P k})"
    by (simp add: Int_commute)
  also have "\<dots> = (\<Sum>k\<in>set xs \<inter> {k. P k}. 1)"
    by simp
  also have "\<dots> = (\<Sum>k\<in>set xs. if k \<in> {k. P k} then 1 else 0)"
    by (rule sum.inter_restrict) simp
  finally show ?thesis by simp
qed

lemma repeated_le:
  "length (filter (\<lambda>k. 1 < count_list xs k) (remdups xs)) + length (remdups xs) \<le> length xs"
proof -
  have "length (filter (\<lambda>k. 1 < count_list xs k) (remdups xs)) + length (remdups xs)
      = (\<Sum>k\<in>set xs. (if 1 < count_list xs k then 1 else 0) + 1)"
    unfolding repeated_sum length_remdups_card_conv by (subst sum.distrib) simp
  also have "\<dots> \<le> (\<Sum>k\<in>set xs. count_list xs k)"
  proof (rule sum_mono)
    fix k assume "k \<in> set xs"
    then have "count_list xs k \<noteq> 0" by (simp add: count_list_0_iff)
    then show "(if 1 < count_list xs k then 1 else 0) + 1 \<le> count_list xs k" by simp
  qed
  finally show ?thesis by (simp add: count_sum[symmetric])
qed

lemma repeated_eq:
  assumes "\<forall>k. count_list xs k \<le> 2"
  shows "length (filter (\<lambda>k. 1 < count_list xs k) (remdups xs)) + length (remdups xs) = length xs"
proof -
  have "length (filter (\<lambda>k. 1 < count_list xs k) (remdups xs)) + length (remdups xs)
      = (\<Sum>k\<in>set xs. (if 1 < count_list xs k then 1 else 0) + 1)"
    unfolding repeated_sum length_remdups_card_conv by (subst sum.distrib) simp
  also have "\<dots> = (\<Sum>k\<in>set xs. count_list xs k)"
  proof (rule sum.cong)
    fix k assume "k \<in> set xs"
    then have "count_list xs k \<noteq> 0" by (simp add: count_list_0_iff)
    moreover have "count_list xs k \<le> 2" using assms by simp
    ultimately show "(if 1 < count_list xs k then 1 else 0) + 1 = count_list xs k" by auto
  qed simp
  finally show ?thesis by (simp add: count_sum[symmetric])
qed

lemma duplicates_count:
  "duplicatesRemovedForCompliance (report (processSheet rt m rows))
     + length (uniqueOTs (processSheet rt m rows))
     = length (allRows (processSheet rt m rows))"
  unfolding processSheet_fields using final_facts(5)[of rt m rows] by simp

lemma length_unique:
  "length (uniqueOTs (processSheet rt m rows))
     = length (remdups (map ot_id (allRows (processSheet rt m rows))))"
proof -
  let ?st = "foldl (processRow rt m) init_state rows"
  have "length (map snd (otMapForCompliance ?st)) = length (map fst (otMapForCompliance ?st))"
    by simp
  also have "\<dots> = card (set (map fst (otMapForCompliance ?st)))"
    using final_facts(1)[of rt m rows] by (rule distinct_card[symmetric])
  also have "\<dots> = card (set (map ot_id (acc_allRows ?st)))"
    using final_facts(2)[of rt m rows] by (rule arg_cong)
  also have "\<dots> = length (remdups (map ot_id (acc_allRows ?st)))"
    by (rule length_remdups_card_conv[symmetric])
  finally show ?thesis unfolding processSheet_fields .
qed

text \<open>
  Claim C1 states that the number of distinct OT ids occurring more than once in
  \<open>allRows\<close> equals \<open>duplicatesRemovedForCompliance\<close>. The pass counts every non-first
  occurrence of an id (line 152), so an id that occurs three times counts twice.

  C1 as amended: \<open>duplicatesRemovedForCompliance\<close> is the number of non-first
  occurrences of ids in \<open>allRows\<close>, that is the length of \<open>allRows\<close> minus the number
  of distinct ids; the number of ids occurring more than once is at most that, and is equal
  to it when no id occurs more than twice.
\<close>

theorem C1_duplicates_count_non_first_occurrences:
  "duplicatesRemovedForCompliance (report (processSheet rt m rows))
     = length (allRows (processSheet rt m rows))
       - length (remdups (map ot_id (allRows (processSheet rt m rows))))
   \<and> length (repeatedIds (allRows (processSheet rt m rows)))
       \<le> duplicatesRemovedForCompliance (report (processSheet rt m rows))
   \<and> ((\<forall>k. count_list (map ot_id (allRows (processSheet rt m rows))) k \<le> 2)
        \<longrightarrow> length (repeatedIds (allRows (processSheet rt m rows)))
            = duplicatesRemovedForCompliance (report (processSheet rt m rows)))"
proof -
  let ?ids = "map ot_id (allRows (processSheet rt m rows))"
  let ?d = "duplicatesRemovedForCompliance (report (processSheet rt m rows))"
  let ?r = "length (repeatedIds (allRows (processSheet rt m rows)))"
  have d: "?d + length (remdups ?ids) = length ?ids"
    using duplicates_count[of rt m rows] by (simp add: length_unique)
  have le: "?r + length (remdups ?ids) \<le> length ?ids"
    unfolding repeatedIds_def by (rule repeated_le)
  have eq: "?r + length (remdups ?ids) = length ?ids" if "\<forall>k. count_list ?ids k \<le> 2"
    unfolding repeatedIds_def using that by (rule repeated_eq)
  have c1: "?d = length (allRows (processSheet rt m rows)) - length (remdups ?ids)"
    using d by simp
  have c2: "?r \<le> ?d"
    using d le by linarith
  have c3: "(\<forall>k. count_list ?ids k \<le> 2) \<longrightarrow> ?r = ?d"
  proof
    assume "\<forall>k. count_list ?ids k \<le> 2"
    from eq[OF this] d show "?r = ?d" by linarith
  qed
  show ?thesis
    by (rule conjI[OF c1 conjI[OF c2 c3]])
qed

text \<open>
  For the internal and the external row of OT 1001, one id occurs twice and one duplicate
  is counted.
\<close>

theorem C1_witness:
  "(\<forall>k. count_list (map ot_id (allRows (processSheet sample_runtime sample_mapping
                                          [row_internal, row_external]))) k \<le> 2)
   \<and> duplicatesRemovedForCompliance
        (report (processSheet sample_runtime sample_mapping [row_internal, row_external])) = 1
   \<and> length (repeatedIds (allRows (processSheet sample_runtime sample_mapping
                                      [row_internal, row_external]))) = 1"
proof -
  let ?P = "processSheet sample_runtime sample_mapping [row_internal, row_external]"
  have h: "\<forall>k. count_list (map ot_id (allRows ?P)) k \<le> 2"
  proof
    fix k
    have "count_list (map ot_id (allRows ?P)) k \<le> length (map ot_id (allRows ?P))"
      by (rule count_le_length)
    then show "count_list (map ot_id (allRows ?P)) k \<le> 2"
      by (simp add: sample_allRows)
  qed
  have d: "duplicatesRemovedForCompliance (report ?P) = 1"
    by code_simp
  from C1_duplicates_count_non_first_occurrences[of sample_runtime sample_mapping
      "[row_internal, row_external]"] h
  have "length (repeatedIds (allRows ?P)) = duplicatesRemovedForCompliance (report ?P)"
    by blast
  with h d show ?thesis by simp
qed

text \<open>
  Three rows of OT 1001: one id occurs more than once, and two duplicates are counted.
\<close>

theorem C1_counterexample:
  "length (repeatedIds (allRows (processSheet sample_runtime sample_mapping
                                   [row_external, row_external, row_external])))
     \<noteq> duplicatesRemovedForCompliance
           (report (processSheet sample_runtime sample_mapping
                      [row_external, row_external, row_external]))"
  by code_simp

section \<open>Rows without OT number (C2)\<close>

lemma reconcile_countBlank: "reconcile (countBlank st) p = countBlank (reconcile st p)"
  by (cases "map_of (otMapForCompliance st) (ot_id p)")
     (simp_all add: reconcile_def countBlank_def Let_def)

lemma processRow_blank: "otNumberOf rt m row = [] \<Longrightarrow> processRow rt m st row = countBlank st"
  by (simp add: processRow_def countBlank_def Let_def)

lemma processRow_countBlank:
  "processRow rt m (countBlank st) row = countBlank (processRow rt m st row)"
proof (cases "otNumberOf rt m row = []")
  case True
  then show ?thesis by (simp add: processRow_blank)
next
  case False
  let ?p = "parseRow rt m row (otNumberOf rt m row)"
  have l: "processRow rt m (countBlank st) row
      = reconcile (countBlank (st\<lparr> acc_totalRows := acc_totalRows st + 1,
                                     acc_allRows := acc_allRows st @ [?p] \<rparr>)) ?p"
    using False by (cases st) (simp add: processRow_def countBlank_def Let_def)
  have r: "processRow rt m st row
      = reconcile (st\<lparr> acc_totalRows := acc_totalRows st + 1,
                         acc_allRows := acc_allRows st @ [?p] \<rparr>) ?p"
    using False by (simp add: processRow_def Let_def)
  show ?thesis unfolding l r by (rule reconcile_countBlank)
qed

lemma foldl_countBlank:
  "foldl (processRow rt m) (countBlank st) rows = countBlank (foldl (processRow rt m) st rows)"
  by (induction rows arbitrary: st) (simp_all add: processRow_countBlank)

lemma foldl_blank_row:
  assumes "otNumberOf rt m row = []"
  shows "foldl (processRow rt m) st (xs @ row # ys)
           = countBlank (foldl (processRow rt m) st (xs @ ys))"
  using assms by (simp add: processRow_blank foldl_countBlank)

text \<open>
  Claim C2 states that a row whose OT number is blank after trimming increments
  \<open>emptyRows\<close> and contributes to no other count. The pass counts the row in
  \<open>totalRows\<close> as well (line 102, ahead of the test of line 105).

  C2 as amended: a row whose OT number is blank after trimming, anywhere in the sheet,
  increments \<open>totalRows\<close> and \<open>emptyRows\<close> by one each and changes nothing else:
  \<open>allRows\<close>, \<open>uniqueOTs\<close> and every other field of the report are what they are
  without the row.
\<close>

theorem C2_blank_row_counts_in_totalRows_and_emptyRows:
  assumes "otNumberOf rt m row = []"
  shows "allRows (processSheet rt m (xs @ row # ys)) = allRows (processSheet rt m (xs @ ys))
    \<and> uniqueOTs (processSheet rt m (xs @ row # ys)) = uniqueOTs (processSheet rt m (xs @ ys))
    \<and> report (processSheet rt m (xs @ row # ys))
        = (report (processSheet rt m (xs @ ys)))
            \<lparr> totalRows := totalRows (report (processSheet rt m (xs @ ys))) + 1,
              emptyRows := emptyRows (report (processSheet rt m (xs @ ys))) + 1 \<rparr>"
  unfolding processSheet_def foldl_blank_row[OF assms]
  by (simp add: Let_def countBlank_def)

text \<open>
  The blank row between two rows of OT 1001.
\<close>

theorem C2_witness:
  "otNumberOf sample_runtime sample_mapping row_blank = []
   \<and> allRows (processSheet sample_runtime sample_mapping [row_external, row_blank, row_delivered])
       = allRows (processSheet sample_runtime sample_mapping [row_external, row_delivered])
   \<and> uniqueOTs (processSheet sample_runtime sample_mapping [row_external, row_blank, row_delivered])
       = uniqueOTs (processSheet sample_runtime sample_mapping [row_external, row_delivered])
   \<and> report (processSheet sample_runtime sample_mapping [row_external, row_blank, row_delivered])
       = (report (processSheet sample_runtime sample_mapping [row_external, row_delivered]))
           \<lparr> totalRows := 3, emptyRows := 1 \<rparr>"
proof -
  have h: "otNumberOf sample_runtime sample_mapping row_blank = []"
    by code_simp
  have t: "totalRows (report (processSheet sample_runtime sample_mapping
                                 [row_external, row_delivered])) = 2"
    and e: "emptyRows (report (processSheet sample_runtime sample_mapping
                                 [row_external, row_delivered])) = 0"
    by code_simp+
  show ?thesis
    using h C2_blank_row_counts_in_totalRows_and_emptyRows[OF h, of "[row_external]" "[row_delivered]"]
    by (simp add: t e)
qed

text \<open>
  A sheet of the blank row alone has one row in \<open>totalRows\<close>, the empty sheet none.
\<close>

theorem C2_counterexample:
  "totalRows (report (processSheet sample_runtime sample_mapping [row_blank]))
     \<noteq> totalRows (report (processSheet sample_runtime sample_mapping []))"
  by code_simp

section \<open>Text fields of a record (C3, C10)\<close>

lemma blank_cell_String: "blank_cell v \<Longrightarrow> trim (js_String rt (js_or v (JStr []))) = []"
  by (cases v) (simp_all add: js_or_def trim_def)

lemma otType_parseRow:
  "otType (parseRow rt m row n)
     = (if m_otType m \<noteq> [] then trim (js_String rt (js_or (row (m_otType m)) (JStr [])))
        else ''N/A'')"
  by (simp add: parseRow_def Let_def)

lemma workshop_parseRow:
  "workshop (parseRow rt m row n)
     = (if trim (js_String rt (js_or (row (m_workshop m)) (JStr ''Sin Taller Asignado''))) \<noteq> []
        then trim (js_String rt (js_or (row (m_workshop m)) (JStr ''Sin Taller Asignado'')))
        else ''Sin Taller'')"
  by (simp add: parseRow_def Let_def)

lemma trim_label: "trim ''Sin Taller Asignado'' = ''Sin Taller Asignado''"
  by code_simp

lemma sample_nonblank:
  "otNumberOf sample_runtime sample_mapping row_bare \<noteq> []"
  "otNumberOf sample_runtime sample_mapping row_spaces \<noteq> []"
  "otNumberOf sample_runtime sample_mapping row_blank = []"
  "otNumberOf sample_runtime (sample_mapping\<lparr> m_otType := [] \<rparr>) row_bare \<noteq> []"
  "otNumberOf sample_runtime (sample_mapping\<lparr> m_otType := [] \<rparr>) row_spaces \<noteq> []"
  "otNumberOf sample_runtime (sample_mapping\<lparr> m_otType := [] \<rparr>) row_blank = []"
  by code_simp+

text \<open>
  Claim C3 states that a blank OT-type cell gives the record the OT type \<^verbatim>\<open>N/A\<close>. Line
  114 gives \<^verbatim>\<open>N/A\<close> when no OT-type column is mapped, and the trimmed cell, with the
  empty string for a blank one, when a column is mapped.

  C3 as amended: the records of \<open>allRows\<close> are those of the rows with an OT number, in
  the order of the sheet, and for every such row of any sheet whose OT-type cell is blank,
  the OT type of its record is \<^verbatim>\<open>N/A\<close> when no OT-type column is mapped and the empty
  string when one is.
\<close>

theorem C3_otType_default_when_column_unmapped:
  "list_all2
     (\<lambda>ot row. blank_cell (row (m_otType m))
        \<longrightarrow> otType ot = (if m_otType m = [] then ''N/A'' else []))
     (allRows (processSheet rt m rows))
     (filter (\<lambda>row. otNumberOf rt m row \<noteq> []) rows)"
  unfolding allRows_processSheet
  by (simp add: list_all2_map1 list_all2_same otType_parseRow blank_cell_String)

text \<open>
  A sheet of the row with white space for OT type, the row without OT number and the
  row without OT-type cell, under the sample mapping and under the same mapping with the
  OT type unmapped.
\<close>

theorem C3_witness:
  "map otType (allRows (processSheet sample_runtime sample_mapping
                          [row_spaces, row_blank, row_bare])) = ['''', '''']
   \<and> map otType (allRows (processSheet sample_runtime (sample_mapping\<lparr> m_otType := [] \<rparr>)
                             [row_spaces, row_blank, row_bare])) = [''N/A'', ''N/A'']"
proof -
  have b: "blank_cell (row_spaces (m_otType sample_mapping))"
    "blank_cell (row_bare (m_otType sample_mapping))"
    "blank_cell (row_spaces (m_otType (sample_mapping\<lparr> m_otType := [] \<rparr>)))"
    "blank_cell (row_bare (m_otType (sample_mapping\<lparr> m_otType := [] \<rparr>)))"
    and m: "m_otType sample_mapping \<noteq> []"
    by code_simp+
  from C3_otType_default_when_column_unmapped[of sample_mapping sample_runtime "[row_spaces, row_blank, row_bare]"]
  obtain p q where
    "allRows (processSheet sample_runtime sample_mapping [row_spaces, row_blank, row_bare]) = [p, q]"
    "otType p = []" "otType q = []"
    using b m by (auto simp: sample_nonblank list_all2_Cons2)
  moreover
  from C3_otType_default_when_column_unmapped[of "sample_mapping\<lparr> m_otType := [] \<rparr>" sample_runtime
      "[row_spaces, row_blank, row_bare]"]
  obtain p' q' where
    "allRows (processSheet sample_runtime (sample_mapping\<lparr> m_otType := [] \<rparr>)
        [row_spaces, row_blank, row_bare]) = [p', q']"
    "otType p' = ''N/A''" "otType q' = ''N/A''"
    using b by (auto simp: sample_nonblank list_all2_Cons2)
  ultimately show ?thesis by simp
qed

text \<open>
  The row with nothing but an OT number, under the sample mapping, which maps the OT
  type: the OT type of its record is the empty string.
\<close>

theorem C3_counterexample:
  "otNumberOf sample_runtime sample_mapping row_bare \<noteq> []
   \<and> blank_cell (row_bare (m_otType sample_mapping))
   \<and> map otType (allRows (processSheet sample_runtime sample_mapping [row_bare])) \<noteq> [''N/A'']"
  by code_simp

text \<open>
  Claim C10: the workshop of a record is never the empty string; and the records of
  \<open>allRows\<close> are those of the rows with an OT number, in the order of the sheet, where
  for every such row of any sheet a workshop cell that is missing, empty or otherwise falsy
  gives its record the workshop \<^verbatim>\<open>Sin Taller Asignado\<close>, and a workshop cell of white
  space only gives it \<^verbatim>\<open>Sin Taller\<close>.
\<close>

theorem C10_workshop_fallback_labels:
  "(\<forall>ot \<in> set (allRows (processSheet rt m rows)). workshop ot \<noteq> [])
   \<and> list_all2
       (\<lambda>ot row.
          (\<not> truthy (row (m_workshop m)) \<longrightarrow> workshop ot = ''Sin Taller Asignado'')
          \<and> ((\<exists>s. row (m_workshop m) = JStr s \<and> s \<noteq> [] \<and> trim s = [])
               \<longrightarrow> workshop ot = ''Sin Taller''))
       (allRows (processSheet rt m rows))
       (filter (\<lambda>row. otNumberOf rt m row \<noteq> []) rows)"
proof (rule conjI)
  show "\<forall>ot \<in> set (allRows (processSheet rt m rows)). workshop ot \<noteq> []"
  proof
    fix ot assume "ot \<in> set (allRows (processSheet rt m rows))"
    then obtain r where "ot = parseRow rt m r (otNumberOf rt m r)"
      unfolding allRows_processSheet by auto
    then show "workshop ot \<noteq> []"
      by (simp add: workshop_parseRow)
  qed
next
  have falsy: "workshop (parseRow rt m row n) = ''Sin Taller Asignado''"
    if "\<not> truthy (row (m_workshop m))" for row n
  proof -
    from that
    have "js_or (row (m_workshop m)) (JStr ''Sin Taller Asignado'') = JStr ''Sin Taller Asignado''"
      by (simp add: js_or_def)
    then show ?thesis
      by (simp add: workshop_parseRow trim_label)
  qed
  have spaces: "workshop (parseRow rt m row n) = ''Sin Taller''"
    if "row (m_workshop m) = JStr s" "s \<noteq> []" "trim s = []" for row n s
  proof -
    from that
    have "trim (js_String rt (js_or (row (m_workshop m)) (JStr ''Sin Taller Asignado''))) = []"
      by (simp add: js_or_def)
    then show ?thesis
      by (simp add: workshop_parseRow)
  qed
  show "list_all2
       (\<lambda>ot row.
          (\<not> truthy (row (m_workshop m)) \<longrightarrow> workshop ot = ''Sin Taller Asignado'')
          \<and> ((\<exists>s. row (m_workshop m) = JStr s \<and> s \<noteq> [] \<and> trim s = [])
               \<longrightarrow> workshop ot = ''Sin Taller''))
       (allRows (processSheet rt m rows))
       (filter (\<lambda>row. otNumberOf rt m row \<noteq> []) rows)"
    unfolding allRows_processSheet list_all2_map1 list_all2_same
    using falsy spaces by blast
qed

text \<open>
  A sheet of the row without workshop cell, the row without OT number, the row whose
  workshop is two spaces, and the first row again.
\<close>

theorem C10_witness:
  "\<not> truthy (row_bare (m_workshop sample_mapping))
   \<and> row_spaces (m_workshop sample_mapping) = JStr ''  ''
   \<and> map workshop (allRows (processSheet sample_runtime sample_mapping
                              [row_bare, row_blank, row_spaces, row_bare]))
       = [''Sin Taller Asignado'', ''Sin Taller'', ''Sin Taller Asignado'']"
proof -
  have h: "\<not> truthy (row_bare (m_workshop sample_mapping))"
    and g2: "row_spaces (m_workshop sample_mapping) = JStr ''  ''"
    and g3: "trim ''  '' = []"
    by code_simp+
  have g: "\<exists>s. row_spaces (m_workshop sample_mapping) = JStr s \<and> s \<noteq> [] \<and> trim s = []"
    using g2 g3 by simp
  from C10_workshop_fallback_labels[of sample_runtime sample_mapping "[row_bare, row_blank, row_spaces, row_bare]"]
  obtain p q r where
    "allRows (processSheet sample_runtime sample_mapping
        [row_bare, row_blank, row_spaces, row_bare]) = [p, q, r]"
    "workshop p = ''Sin Taller Asignado''" "workshop q = ''Sin Taller''"
    "workshop r = ''Sin Taller Asignado''"
    using h g by (auto simp: sample_nonblank list_all2_Cons2)
  with h g2 show ?thesis by simp
qed

section \<open>Reconciliation of two records (C4, C5)\<close>

lemma reconcileRecords_pair:
  assumes "ot_id A = ot_id B"
  shows "reconcileRecords [A, B]
    = [if (isInternalClient A \<and> \<not> isInternalClient B)
           \<or> (isInternalClient A = isInternalClient B \<and> realDate A = None \<and> realDate B \<noteq> None)
        then B else A]"
proof -
  have one: "otMapForCompliance (reconcile init_state A) = [(ot_id A, A)]"
    by (simp add: otMap_reconcile init_state_def)
  show ?thesis
    unfolding reconcileRecords_def
    by (auto simp: otMap_reconcile[of "reconcile init_state A" B] one assms)
qed

text \<open>
  Claim C4: of two records of one id, \<open>A\<close> of an internal client and \<open>B\<close> of an
  external one, neither with a real delivery date, \<open>B\<close> is the survivor whether the order
  is \<open>A\<close>, \<open>B\<close> or \<open>B\<close>, \<open>A\<close>.
\<close>

theorem C4_external_wins_either_order:
  assumes "ot_id A = ot_id B"
    and "isInternalClient A" and "\<not> isInternalClient B"
    and "realDate A = None" and "realDate B = None"
  shows "reconcileRecords [A, B] = [B] \<and> reconcileRecords [B, A] = [B]"
  using assms by (simp add: reconcileRecords_pair)

text \<open>
  The internal and the external row of OT 1001, in both orders, through \<open>processSheet\<close>.
\<close>

theorem C4_witness:
  "uniqueOTs (processSheet sample_runtime sample_mapping [row_internal, row_external])
     = [rec_external]
   \<and> uniqueOTs (processSheet sample_runtime sample_mapping [row_external, row_internal])
     = [rec_external]"
proof -
  have h: "ot_id rec_internal = ot_id rec_external" "isInternalClient rec_internal"
    "\<not> isInternalClient rec_external" "realDate rec_internal = None"
    "realDate rec_external = None"
    by (simp_all add: rec_internal_def rec_external_def)
  from C4_external_wins_either_order[OF h] show ?thesis
    by (simp add: uniqueOTs_reconcileRecords sample_allRows)
qed

text \<open>
  Claim C5: of two records of one id that agree on being internal, where \<open>C\<close> has no
  real delivery date and \<open>D\<close> has one, \<open>D\<close> is the survivor in both orders; and when
  neither has a real date, or both have one, the record seen first survives.
\<close>

theorem C5_real_date_wins_then_first_seen:
  assumes "ot_id C = ot_id D" and "isInternalClient C = isInternalClient D"
  shows "(realDate C = None \<and> realDate D \<noteq> None
            \<longrightarrow> reconcileRecords [C, D] = [D] \<and> reconcileRecords [D, C] = [D])
    \<and> ((realDate C = None) = (realDate D = None) \<longrightarrow> reconcileRecords [C, D] = [C])"
  using assms by (auto simp: reconcileRecords_pair)

text \<open>
  The external row of OT 1001 without and with a real date, in both orders, through
  \<open>processSheet\<close>; and two records that differ in the workshop only, neither delivered
  and both delivered.
\<close>

theorem C5_witness:
  "uniqueOTs (processSheet sample_runtime sample_mapping [row_external, row_delivered])
     = [rec_delivered]
   \<and> uniqueOTs (processSheet sample_runtime sample_mapping [row_delivered, row_external])
     = [rec_delivered]
   \<and> reconcileRecords [rec_external, rec_external\<lparr> workshop := ''Sur'' \<rparr>] = [rec_external]
   \<and> reconcileRecords [rec_delivered, rec_delivered\<lparr> workshop := ''Sur'' \<rparr>] = [rec_delivered]"
proof -
  have h: "ot_id rec_external = ot_id rec_delivered"
    "isInternalClient rec_external = isInternalClient rec_delivered"
    and d: "realDate rec_external = None" "realDate rec_delivered \<noteq> None"
    by (simp_all add: rec_delivered_def rec_external_def)
  have a: "reconcileRecords [rec_external, rec_delivered] = [rec_delivered]
      \<and> reconcileRecords [rec_delivered, rec_external] = [rec_delivered]"
    using C5_real_date_wins_then_first_seen[OF h] d by blast
  have b: "reconcileRecords [rec_external, rec_external\<lparr> workshop := ''Sur'' \<rparr>] = [rec_external]"
    using C5_real_date_wins_then_first_seen[of rec_external "rec_external\<lparr> workshop := ''Sur'' \<rparr>"]
    by simp
  have c: "reconcileRecords [rec_delivered, rec_delivered\<lparr> workshop := ''Sur'' \<rparr>] = [rec_delivered]"
    using C5_real_date_wins_then_first_seen[of rec_delivered "rec_delivered\<lparr> workshop := ''Sur'' \<rparr>"]
    by simp
  from a b c show ?thesis
    by (simp add: uniqueOTs_reconcileRecords sample_allRows)
qed

section \<open>The two views (C7)\<close>

text \<open>
  Claim C7: every record of \<open>uniqueOTs\<close> is one of the records of \<open>allRows\<close>; the ids
  of \<open>uniqueOTs\<close> are distinct and are the ids of \<open>allRows\<close>, so that every id of
  \<open>allRows\<close> has exactly one representative; and \<open>uniqueOTs\<close> is no longer than
  \<open>allRows\<close>. A record is never changed once built, so the record stands for the object.
\<close>

theorem C7_unique_records_invariant:
  "set (uniqueOTs (processSheet rt m rows)) \<subseteq> set (allRows (processSheet rt m rows))
   \<and> distinct (map ot_id (uniqueOTs (processSheet rt m rows)))
   \<and> set (map ot_id (uniqueOTs (processSheet rt m rows)))
       = set (map ot_id (allRows (processSheet rt m rows)))
   \<and> length (uniqueOTs (processSheet rt m rows)) \<le> length (allRows (processSheet rt m rows))"
proof -
  let ?st = "foldl (processRow rt m) init_state rows"
  have c1: "set (map snd (otMapForCompliance ?st)) \<subseteq> set (acc_allRows ?st)"
    by (rule final_facts(4))
  have c2: "distinct (map ot_id (map snd (otMapForCompliance ?st)))"
    using final_facts(1)[of rt m rows] by (simp only: final_facts(3))
  have c3: "set (map ot_id (map snd (otMapForCompliance ?st))) = set (map ot_id (acc_allRows ?st))"
    using final_facts(2)[of rt m rows] by (simp only: final_facts(3))
  have c4: "length (map snd (otMapForCompliance ?st)) \<le> length (acc_allRows ?st)"
    using final_facts(5)[of rt m rows] by simp
  show ?thesis
    unfolding processSheet_fields by (rule conjI[OF c1 conjI[OF c2 conjI[OF c3 c4]]])
qed

text \<open>
  A sheet of OT 1001, OT 1002 and OT 1001 again.
\<close>

theorem C7_witness:
  "set (uniqueOTs (processSheet sample_runtime sample_mapping [row_internal, row_bare, row_external]))
     \<subseteq> set (allRows (processSheet sample_runtime sample_mapping [row_internal, row_bare, row_external]))
   \<and> map ot_id (uniqueOTs (processSheet sample_runtime sample_mapping
                              [row_internal, row_bare, row_external])) = [''1001'', ''1002'']
   \<and> map ot_id (allRows (processSheet sample_runtime sample_mapping
                            [row_internal, row_bare, row_external])) = [''1001'', ''1002'', ''1001'']"
proof -
  have "map ot_id (uniqueOTs (processSheet sample_runtime sample_mapping
                              [row_internal, row_bare, row_external])) = [''1001'', ''1002'']"
    and "map ot_id (allRows (processSheet sample_runtime sample_mapping
                            [row_internal, row_bare, row_external])) = [''1001'', ''1002'', ''1001'']"
    by code_simp+
  with C7_unique_records_invariant[of sample_runtime sample_mapping
      "[row_internal, row_bare, row_external]"]
  show ?thesis by simp
qed

section \<open>Classification (C6)\<close>

lemma statsStep_counts:
  "globalTotal (statsStep rt st ot) = globalTotal st + 1"
  "globalOnTime (statsStep rt st ot)
     = globalOnTime st + (if classify rt ot = OnTime then 1 else 0)"
  "globalLate (statsStep rt st ot)
     = globalLate st + (if classify rt ot = Late then 1 else 0)"
  "globalPending (statsStep rt st ot)
     = globalPending st + (if classify rt ot = Pending then 1 else 0)"
  by (simp_all add: statsStep_def classify_def targetDateOf_def Let_def split: option.splits)

lemma foldl_statsStep_counts:
  "globalTotal (foldl (statsStep rt) st ots) = globalTotal st + length ots"
  "globalOnTime (foldl (statsStep rt) st ots)
     = globalOnTime st + length (filter (\<lambda>ot. classify rt ot = OnTime) ots)"
  "globalLate (foldl (statsStep rt) st ots)
     = globalLate st + length (filter (\<lambda>ot. classify rt ot = Late) ots)"
  "globalPending (foldl (statsStep rt) st ots)
     = globalPending st + length (filter (\<lambda>ot. classify rt ot = Pending) ots)"
  by (induction ots arbitrary: st) (simp_all add: statsStep_counts)

text \<open>
  Claim C6: \<open>calculateStats\<close> classifies every record as \<open>classify\<close> does. Over any
  sequence of records its tallies of on-time, late and pending records are the numbers of
  records so classified, where the target date is the second estimated date if present,
  else the estimated date, and the days of the real and the target date are compared.
\<close>

theorem C6_classification_tallies:
  "totalOnTime (calculateStats rt ots) = length (filter (\<lambda>ot. classify rt ot = OnTime) ots)
   \<and> totalLate (calculateStats rt ots) = length (filter (\<lambda>ot. classify rt ot = Late) ots)
   \<and> totalPending (calculateStats rt ots) = length (filter (\<lambda>ot. classify rt ot = Pending) ots)
   \<and> totalOTs (calculateStats rt ots) = length ots"
  by (simp add: calculateStats_def Let_def foldl_statsStep_counts init_stats_def)

text \<open>
  With target date 2024-03-10: delivered on 2024-03-10 at 15:30, on time; delivered on
  2024-03-11, late; promised for 2024-03-01, rescheduled to 2024-03-10 and delivered on
  2024-03-10, on time; not delivered, pending. Without target date: pending, delivered or
  not.
\<close>

theorem C6_witness:
  "totalOnTime (calculateStats sample_runtime
      [rec_dated (Some 1710028800000) None (Some 1710084600000),
       rec_dated (Some 1710028800000) None (Some 1710144000000),
       rec_dated (Some 1709251200000) (Some 1710028800000) (Some 1710084600000),
       rec_dated (Some 1710028800000) None None,
       rec_dated None None None,
       rec_dated None None (Some 1710084600000)]) = 2
   \<and> totalLate (calculateStats sample_runtime
      [rec_dated (Some 1710028800000) None (Some 1710084600000),
       rec_dated (Some 1710028800000) None (Some 1710144000000),
       rec_dated (Some 1709251200000) (Some 1710028800000) (Some 1710084600000),
       rec_dated (Some 1710028800000) None None,
       rec_dated None None None,
       rec_dated None None (Some 1710084600000)]) = 1
   \<and> totalPending (calculateStats sample_runtime
      [rec_dated (Some 1710028800000) None (Some 1710084600000),
       rec_dated (Some 1710028800000) None (Some 1710144000000),
       rec_dated (Some 1709251200000) (Some 1710028800000) (Some 1710084600000),
       rec_dated (Some 1710028800000) None None,
       rec_dated None None None,
       rec_dated None None (Some 1710084600000)]) = 3"
proof -
  let ?ots = "[rec_dated (Some 1710028800000) None (Some 1710084600000),
       rec_dated (Some 1710028800000) None (Some 1710144000000),
       rec_dated (Some 1709251200000) (Some 1710028800000) (Some 1710084600000),
       rec_dated (Some 1710028800000) None None,
       rec_dated None None None,
       rec_dated None None (Some 1710084600000)]"
  have "length (filter (\<lambda>ot. classify sample_runtime ot = OnTime) ?ots) = 2"
    and "length (filter (\<lambda>ot. classify sample_runtime ot = Late) ?ots) = 1"
    and "length (filter (\<lambda>ot. classify sample_runtime ot = Pending) ?ots) = 3"
    by code_simp+
  with C6_classification_tallies[of sample_runtime ?ots] show ?thesis
    by simp
qed

section \<open>Internal clients (C8)\<close>

lemma countOf_dict_set:
  "countOf (dict_set k v d) c = (if c = k then v else countOf d c)"
  by (simp add: countOf_def map_of_dict_set)

lemma countOf_empty: "countOf [] c = 0"
  by (simp add: countOf_def)

lemma tallyInternal_step:
  "fst (tallyInternal acc ot) = fst acc + (if isInternalClient ot then 1 else 0)"
  "countOf (snd (tallyInternal acc ot)) c
     = countOf (snd acc) c + (if isInternalClient ot \<and> clientCode ot = c then 1 else 0)"
  by (auto simp: tallyInternal_def countOf_dict_set) (simp_all add: countOf_def)

lemma tallyInternal_foldl:
  "fst (foldl tallyInternal acc rs) = fst acc + length (filter isInternalClient rs)"
  "countOf (snd (foldl tallyInternal acc rs)) c
     = countOf (snd acc) c
       + length (filter (\<lambda>ot. isInternalClient ot \<and> clientCode ot = c) rs)"
  by (induction rs arbitrary: acc) (simp_all add: tallyInternal_step)

lemma isInternal_parseRow:
  "isInternalClient (parseRow rt m row n)
     = (clientCode (parseRow rt m row n) \<in> set INTERNAL_CLIENT_CODES)"
  by (simp add: parseRow_def Let_def)

lemma isInternal_allRows:
  "ot \<in> set (allRows (processSheet rt m rows))
    \<Longrightarrow> isInternalClient ot = (clientCode ot \<in> set INTERNAL_CLIENT_CODES)"
  unfolding allRows_processSheet using isInternal_parseRow by auto

lemma report_tally:
  "internalClientsCount (report (processSheet rt m rows))
     = fst (foldl tallyInternal (0, []) (allRows (processSheet rt m rows)))"
  "internalClientsByCode (report (processSheet rt m rows))
     = snd (foldl tallyInternal (0, []) (allRows (processSheet rt m rows)))"
  by (simp_all add: processSheet_def Let_def)

text \<open>
  Claim C8: a record whose client code is one of the internal codes is in neither the
  compliance data nor the financial data, whatever the filter state and the records
  filtered; and in the report of a sheet, \<open>internalClientsCount\<close> is the number of
  records of \<open>allRows\<close> with an internal code, and \<open>internalClientsByCode\<close> holds for
  each internal code the number of records of \<open>allRows\<close> with that code.
\<close>

theorem C8_internal_clients_excluded_but_counted:
  "(clientCode ot \<in> set INTERNAL_CLIENT_CODES
      \<longrightarrow> ot \<notin> set (complianceData rt fs us) \<and> ot \<notin> set (financialData rt fs rs))
   \<and> internalClientsCount (report (processSheet rt m rows))
       = length (filter (\<lambda>ot. clientCode ot \<in> set INTERNAL_CLIENT_CODES)
                   (allRows (processSheet rt m rows)))
   \<and> (\<forall>c \<in> set INTERNAL_CLIENT_CODES.
         countOf (internalClientsByCode (report (processSheet rt m rows))) c
           = length (filter (\<lambda>ot. clientCode ot = c) (allRows (processSheet rt m rows))))"
proof (intro conjI impI ballI)
  assume "clientCode ot \<in> set INTERNAL_CLIENT_CODES"
  then show "ot \<notin> set (complianceData rt fs us)"
    by (simp add: complianceData_def INTERNAL_CLIENT_CODES_def)
next
  assume "clientCode ot \<in> set INTERNAL_CLIENT_CODES"
  then show "ot \<notin> set (financialData rt fs rs)"
    by (simp add: financialData_def INTERNAL_CLIENT_CODES_def)
next
  have "filter isInternalClient (allRows (processSheet rt m rows))
      = filter (\<lambda>ot. clientCode ot \<in> set INTERNAL_CLIENT_CODES) (allRows (processSheet rt m rows))"
    by (rule filter_cong[OF refl]) (rule isInternal_allRows)
  then show "internalClientsCount (report (processSheet rt m rows))
       = length (filter (\<lambda>ot. clientCode ot \<in> set INTERNAL_CLIENT_CODES)
                   (allRows (processSheet rt m rows)))"
    by (simp add: report_tally tallyInternal_foldl)
next
  fix c assume c: "c \<in> set INTERNAL_CLIENT_CODES"
  have "filter (\<lambda>ot. isInternalClient ot \<and> clientCode ot = c) (allRows (processSheet rt m rows))
      = filter (\<lambda>ot. clientCode ot = c) (allRows (processSheet rt m rows))"
    by (rule filter_cong[OF refl]) (use c isInternal_allRows in auto)
  then show "countOf (internalClientsByCode (report (processSheet rt m rows))) c
           = length (filter (\<lambda>ot. clientCode ot = c) (allRows (processSheet rt m rows)))"
    by (simp add: report_tally tallyInternal_foldl countOf_empty)
qed

text \<open>
  The internal and the external record of OT 1001.
\<close>

theorem C8_witness:
  "clientCode rec_internal \<in> set INTERNAL_CLIENT_CODES
   \<and> rec_internal \<notin> set (complianceData sample_runtime sample_filter [rec_internal, rec_external])
   \<and> rec_internal \<notin> set (financialData sample_runtime sample_filter [rec_internal, rec_external])
   \<and> complianceData sample_runtime sample_filter [rec_internal, rec_external] = [rec_external]
   \<and> internalClientsCount (report (processSheet sample_runtime sample_mapping
                                      [row_internal, row_external])) = 1
   \<and> countOf (internalClientsByCode (report (processSheet sample_runtime sample_mapping
                                               [row_internal, row_external]))) ''C0008157'' = 1"
proof -
  have h: "clientCode rec_internal \<in> set INTERNAL_CLIENT_CODES"
    and c: "''C0008157'' \<in> set INTERNAL_CLIENT_CODES"
    and f: "complianceData sample_runtime sample_filter [rec_internal, rec_external] = [rec_external]"
    and n: "length (filter (\<lambda>ot. clientCode ot \<in> set INTERNAL_CLIENT_CODES)
                          [rec_internal, rec_external]) = 1"
    and k: "length (filter (\<lambda>ot. clientCode ot = ''C0008157'') [rec_internal, rec_external]) = 1"
    by code_simp+
  from C8_internal_clients_excluded_but_counted[of rec_internal sample_runtime sample_filter
      "[rec_internal, rec_external]" "[rec_internal, rec_external]" sample_mapping
      "[row_internal, row_external]"] h c f n k
  show ?thesis
    by (simp add: sample_allRows)
qed

section \<open>The serial 45000 (C9)\<close>

text \<open>
  Claim C9: the serial 45000 normalizes to a date, of time value 1678838400000, and the
  serial of that date is 45000 again. Every intermediate value is an integer below
  \<open>2 ^ 53\<close>, where doubles are exact.
\<close>

theorem C9_serial_45000_round_trip:
  "parseExcelDate rt (JNum (Fin 45000)) = Some 1678838400000
   \<and> map_option serialOfDate (parseExcelDate rt (JNum (Fin 45000))) = Some 45000"
proof -
  have "serialToDate (Fin 45000) = Some 1678838400000"
    by code_simp
  then show ?thesis
    by (simp add: serialOfDate_def)
qed

text \<open>
  At the runtime of the examples.
\<close>

theorem C9_witness:
  "map_option serialOfDate (parseExcelDate sample_runtime (JNum (Fin 45000))) = Some 45000"
  using C9_serial_45000_round_trip[of sample_runtime] by (rule conjunct2)

end
